theory Spec2Isabelle
  imports Main "HOL-Library.Sublist"
begin

section \<open>Python values and strings\<close>

text \<open>
  A Python \<open>str\<close> is a sequence of Unicode code points, so it is modelled as a list of
  natural numbers (one per code point) and not as a list of bytes. The lexicon of the
  analyzer is Cyrillic; its words are written below as code-point lists, with a Latin
  transliteration in the accompanying text.
\<close>

type_synonym ustring = "nat list"

definition ustr :: "string \<Rightarrow> ustring" where
  "ustr s = map of_char s"

text \<open>
  The values a caller can hand to the analyzer and the service (the decoded JSON field):
  \<open>None\<close>, booleans, integers, strings, and \<open>PyOther\<close> for any other object (a float,
  a list, a dictionary). Only \<open>PyStr\<close> passes \<open>isinstance(text, str)\<close>.
\<close>

datatype pyval = PyNone | PyBool bool | PyInt int | PyStr ustring | PyOther


text \<open>
  The exceptions that can leave the code. \<open>ValueError\<close> with a message is what the code
  raises itself. The other two are raised by the \<open>sqlite3\<close> binding while it binds a
  query parameter, before the statement runs: \<open>UnicodeEncodeError\<close> for a string that
  cannot be encoded as UTF-8 and \<open>OverflowError\<close> for an integer outside the signed
  64-bit range. In Python \<open>UnicodeEncodeError\<close> is a subclass of \<open>ValueError\<close>; the model
  keeps the two apart by constructor.
\<close>

datatype error = ValueError string | UnicodeEncodeError | OverflowError

text \<open>
  A string can be encoded as UTF-8 when it holds no lone surrogate, that is no code point
  in U+D800..U+DFFF.
\<close>

definition encodable :: "ustring \<Rightarrow> bool" where
  "encodable s = list_all (\<lambda>c. c < 55296 \<or> 57343 < c) s"

text \<open>The integers SQLite's \<open>INTEGER\<close> holds.\<close>

definition int64 :: "int \<Rightarrow> bool" where
  "int64 i \<longleftrightarrow> - 9223372036854775808 \<le> i \<and> i \<le> 9223372036854775807"

subsection \<open>The string builtins the code calls\<close>

text \<open>
  \<open>str.strip()\<close> without arguments removes leading and trailing whitespace, where
  whitespace is what \<open>str.isspace\<close> accepts: U+0009..U+000D, U+001C..U+0020, U+0085,
  U+00A0, U+1680, U+2000..U+200A, U+2028, U+2029, U+202F, U+205F and U+3000.
\<close>

definition isspace :: "nat \<Rightarrow> bool" where
  "isspace c \<longleftrightarrow>
     (9 \<le> c \<and> c \<le> 13) \<or> (28 \<le> c \<and> c \<le> 32) \<or> c = 133 \<or> c = 160 \<or> c = 5760 \<or>
     (8192 \<le> c \<and> c \<le> 8202) \<or> c = 8232 \<or> c = 8233 \<or> c = 8239 \<or> c = 8287 \<or> c = 12288"

definition strip :: "ustring \<Rightarrow> ustring" where
  "strip s = rev (dropWhile isspace (rev (dropWhile isspace s)))"

text \<open>
  \<open>str.lower()\<close> is modelled code point by code point on the blocks the lexicon and
  ordinary input live in: Basic Latin, Latin-1 and the Cyrillic capitals U+0400..U+042F.
  Every other code point is left as it is. Python's full table is larger, but no code
  point outside U+0410..U+042F lowers to a letter of the lexicon (U+0430..U+044F) and
  nothing but the space lowers to a space, so the substring tests of \<open>analyze\<close> do not
  depend on the rest of the table.
\<close>

definition lower_cp :: "nat \<Rightarrow> nat" where
  "lower_cp c =
     (if 65 \<le> c \<and> c \<le> 90 then c + 32
      else if 192 \<le> c \<and> c \<le> 222 \<and> c \<noteq> 215 then c + 32
      else if 1024 \<le> c \<and> c \<le> 1039 then c + 80
      else if 1040 \<le> c \<and> c \<le> 1071 then c + 32
      else c)"

definition lower :: "ustring \<Rightarrow> ustring" where
  "lower s = map lower_cp s"

text \<open>
  Python's \<open>w in s\<close> on two strings: \<open>w\<close> occurs in \<open>s\<close> as a contiguous substring
  (the empty string occurs everywhere).
\<close>

fun str_in :: "ustring \<Rightarrow> ustring \<Rightarrow> bool" where
  "str_in w [] = (w = [])"
| "str_in w (c # cs) = (prefix w (c # cs) \<or> str_in w cs)"

text \<open>
  \<open>any(w in s for w in ws)\<close>, the test \<open>analyze\<close> makes three times.
\<close>

definition any_in :: "ustring list \<Rightarrow> ustring \<Rightarrow> bool" where
  "any_in ws s = list_ex (\<lambda>w. str_in w s) ws"

section \<open>SentimentAnalyzer\<close>

text \<open>
  The three labels are the Python strings \<open>"positive"\<close>, \<open>"negative"\<close> and
  \<open>"neutral"\<close>.
\<close>

definition positive :: ustring where
  "positive = ustr ''positive''"

definition negative :: ustring where
  "negative = ustr ''negative''"

definition neutral :: ustring where
  "neutral = ustr ''neutral''"

text \<open>
  \<open>POSITIVE_WORDS\<close>, in the order of the source: khorosh, khorosho, otlichn, prekrasn,
  lyublyu, nravitsya, super, klass, voskhititel'n, luchsh, zamechatel'n, prevoskhodn,
  udobn, rekomenduyu, dovolen, velikolepn, bezuprechn, ideal'n, prekrasno, otlichno.
  The source holds them in a set; \<open>any\<close> over it does not depend on the order.
\<close>

definition POSITIVE_WORDS :: "ustring list" where
  "POSITIVE_WORDS =
    [[1093, 1086, 1088, 1086, 1096],
     [1093, 1086, 1088, 1086, 1096, 1086],
     [1086, 1090, 1083, 1080, 1095, 1085],
     [1087, 1088, 1077, 1082, 1088, 1072, 1089, 1085],
     [1083, 1102, 1073, 1083, 1102],
     [1085, 1088, 1072, 1074, 1080, 1090, 1089, 1103],
     [1089, 1091, 1087, 1077, 1088],
     [1082, 1083, 1072, 1089, 1089],
     [1074, 1086, 1089, 1093, 1080, 1090, 1080, 1090, 1077, 1083, 1100, 1085],
     [1083, 1091, 1095, 1096],
     [1079, 1072, 1084, 1077, 1095, 1072, 1090, 1077, 1083, 1100, 1085],
     [1087, 1088, 1077, 1074, 1086, 1089, 1093, 1086, 1076, 1085],
     [1091, 1076, 1086, 1073, 1085],
     [1088, 1077, 1082, 1086, 1084, 1077, 1085, 1076, 1091, 1102],
     [1076, 1086, 1074, 1086, 1083, 1077, 1085],
     [1074, 1077, 1083, 1080, 1082, 1086, 1083, 1077, 1087, 1085],
     [1073, 1077, 1079, 1091, 1087, 1088, 1077, 1095, 1085],
     [1080, 1076, 1077, 1072, 1083, 1100, 1085],
     [1087, 1088, 1077, 1082, 1088, 1072, 1089, 1085, 1086],
     [1086, 1090, 1083, 1080, 1095, 1085, 1086]]"

text \<open>
  \<open>NEGATIVE_WORDS\<close>: plokh, plokho, uzhasn, nenavizh, otvratitel'n, koshmar,
  razocharovan, neudobn, khudsh, nedostatok, problem, nedostat, nedovolen, nekachestven,
  uzhasno, nedovol', otvratno, otvratitel'no, merzost, nepriyatn, "ne nravitsya".
\<close>

definition NEGATIVE_WORDS :: "ustring list" where
  "NEGATIVE_WORDS =
    [[1087, 1083, 1086, 1093],
     [1087, 1083, 1086, 1093, 1086],
     [1091, 1078, 1072, 1089, 1085],
     [1085, 1077, 1085, 1072, 1074, 1080, 1078],
     [1086, 1090, 1074, 1088, 1072, 1090, 1080, 1090, 1077, 1083, 1100, 1085],
     [1082, 1086, 1096, 1084, 1072, 1088],
     [1088, 1072, 1079, 1086, 1095, 1072, 1088, 1086, 1074, 1072, 1085],
     [1085, 1077, 1091, 1076, 1086, 1073, 1085],
     [1093, 1091, 1076, 1096],
     [1085, 1077, 1076, 1086, 1089, 1090, 1072, 1090, 1086, 1082],
     [1087, 1088, 1086, 1073, 1083, 1077, 1084],
     [1085, 1077, 1076, 1086, 1089, 1090, 1072, 1090],
     [1085, 1077, 1076, 1086, 1074, 1086, 1083, 1077, 1085],
     [1085, 1077, 1082, 1072, 1095, 1077, 1089, 1090, 1074, 1077, 1085],
     [1091, 1078, 1072, 1089, 1085, 1086],
     [1085, 1077, 1076, 1086, 1074, 1086, 1083, 1100],
     [1086, 1090, 1074, 1088, 1072, 1090, 1085, 1086],
     [1086, 1090, 1074, 1088, 1072, 1090, 1080, 1090, 1077, 1083, 1100, 1085, 1086],
     [1084, 1077, 1088, 1079, 1086, 1089, 1090],
     [1085, 1077, 1087, 1088, 1080, 1103, 1090, 1085],
     [1085, 1077, 32, 1085, 1088, 1072, 1074, 1080, 1090, 1089, 1103]]"

text \<open>
  The local \<open>negative_phrases\<close> of \<open>analyze\<close>: "ne nravitsya", "ne lyublyu",
  "ne khochu".
\<close>

definition negative_phrases :: "ustring list" where
  "negative_phrases =
    [[1085, 1077, 32, 1085, 1088, 1072, 1074, 1080, 1090, 1089, 1103],
     [1085, 1077, 32, 1083, 1102, 1073, 1083, 1102],
     [1085, 1077, 32, 1093, 1086, 1095, 1091]]"

text \<open>
  \<open>SentimentAnalyzer.analyze\<close>: a value that is not a string raises \<open>ValueError\<close>; a
  blank string is neutral; otherwise the three \<open>any(... in text_lower ...)\<close> tests run in
  the order of the source.
\<close>

definition analyze :: "pyval \<Rightarrow> error + ustring" where
  "analyze v =
     (case v of
        PyStr text \<Rightarrow>
          if strip text = [] then Inr neutral
          else
            let text_lower = lower text in
            if any_in negative_phrases text_lower then Inr negative
            else if any_in POSITIVE_WORDS text_lower then Inr positive
            else if any_in NEGATIVE_WORDS text_lower then Inr negative
            else Inr neutral
      | _ \<Rightarrow> Inl (ValueError ''Text must be a string''))"

section \<open>ReviewRepository\<close>

text \<open>
  A row of the table \<open>reviews\<close>, which is also the dictionary the repository returns.
  \<open>created_at\<close> is the text \<open>datetime.utcnow().isoformat()\<close> yields, which is ASCII, so
  it is kept as a \<open>string\<close>.
\<close>

record review =
  r_id :: int
  r_text :: ustring
  r_sentiment :: ustring
  r_created_at :: string

text \<open>
  The database file as the repository sees it: the rows of \<open>reviews\<close> in the order a
  table scan visits them, and the counter SQLite keeps for an \<open>AUTOINCREMENT\<close> key
  (the largest row id the table ever held). The \<open>SELECT\<close> of \<open>find_all\<close> has no
  \<open>ORDER BY\<close>; SQLite answers it by walking the table, and the model fixes that walk as
  the list order: an inserted row goes to the end, a deleted row leaves the others in
  place. The \<open>TEXT\<close> columns hold the strings as given and \<open>sentiment = ?\<close> compares
  them code point by code point (the default binary collation).

  Failures of the storage engine itself (\<open>sqlite3.Error\<close>: an unreadable file, a full
  disk) are outside the model. That includes the one \<open>INSERT\<close> that SQLite refuses by
  design, when the largest row id 9223372036854775807 has been used: it reports
  "database or disk is full", a \<open>sqlite3.Error\<close>, where the model goes on counting.
\<close>

record db =
  reviews :: "review list"
  sqlite_sequence :: int

definition init_db :: db where
  "init_db = \<lparr>reviews = [], sqlite_sequence = 0\<rparr>"

definition max_rowid :: "review list \<Rightarrow> int" where
  "max_rowid rs = foldr (\<lambda>r m. max (r_id r) m) rs 0"

text \<open>
  \<open>create\<close>: binding \<open>text\<close> or \<open>sentiment\<close> raises \<open>UnicodeEncodeError\<close> when the
  string holds a lone surrogate, and then nothing is inserted. Otherwise the \<open>INSERT\<close>
  gives the row an id one above the largest id the table holds or ever held;
  \<open>created_at\<close> is the clock reading taken by the caller of the model.
\<close>

definition create :: "db \<Rightarrow> ustring \<Rightarrow> ustring \<Rightarrow> string \<Rightarrow> error + review \<times> db" where
  "create st text sentiment created_at =
     (if encodable text \<and> encodable sentiment then
        let lastrowid = max (sqlite_sequence st) (max_rowid (reviews st)) + 1;
            row = \<lparr>r_id = lastrowid, r_text = text, r_sentiment = sentiment,
                   r_created_at = created_at\<rparr>
        in Inr (row, st\<lparr>reviews := reviews st @ [row], sqlite_sequence := lastrowid\<rparr>)
      else Inl UnicodeEncodeError)"

text \<open>
  \<open>find_all\<close>: the \<open>WHERE sentiment = ?\<close> clause and its parameter are added only when
  the argument is truthy, that is neither \<open>None\<close> nor the empty string; binding the
  parameter raises \<open>UnicodeEncodeError\<close> when it holds a lone surrogate.
\<close>

definition find_all :: "db \<Rightarrow> ustring option \<Rightarrow> error + review list" where
  "find_all st sentiment =
     (case sentiment of
        None \<Rightarrow> Inr (reviews st)
      | Some s \<Rightarrow>
          if s \<noteq> [] then
            (if encodable s then Inr (filter (\<lambda>r. r_sentiment r = s) (reviews st))
             else Inl UnicodeEncodeError)
          else Inr (reviews st))"

text \<open>
  \<open>delete\<close>: binding \<open>review_id\<close> raises \<open>OverflowError\<close> when it is outside the signed
  64-bit range; otherwise the \<open>DELETE\<close> statement runs, then \<open>cursor.rowcount > 0\<close>.
\<close>

definition delete :: "db \<Rightarrow> int \<Rightarrow> error + bool \<times> db" where
  "delete st review_id =
     (if int64 review_id then
        let rowcount = length (filter (\<lambda>r. r_id r = review_id) (reviews st))
        in Inr (rowcount > 0, st\<lparr>reviews := filter (\<lambda>r. r_id r \<noteq> review_id) (reviews st)\<rparr>)
      else Inl OverflowError)"

section \<open>ReviewService\<close>

definition create_review :: "db \<Rightarrow> pyval \<Rightarrow> string \<Rightarrow> error + review \<times> db" where
  "create_review st text created_at =
     (case text of
        PyStr s \<Rightarrow>
          if strip s = [] then Inl (ValueError ''Text must be a non-empty string'')
          else (case analyze text of
                  Inl e \<Rightarrow> Inl e
                | Inr sentiment \<Rightarrow> create st s sentiment created_at)
      | _ \<Rightarrow> Inl (ValueError ''Text must be a non-empty string''))"

definition get_reviews :: "db \<Rightarrow> ustring option \<Rightarrow> error + review list" where
  "get_reviews st sentiment = find_all st sentiment"

text \<open>
  \<open>ReviewService.delete_review\<close> has no check and no \<open>raise\<close> of its own: its outcome is
  the repository's.
\<close>

definition delete_review :: "db \<Rightarrow> int \<Rightarrow> error + bool \<times> db" where
  "delete_review st review_id = delete st review_id"

subsection \<open>Sequences of service calls\<close>

text \<open>
  A call that raises leaves the table as it was: each repository method runs in its own
  \<open>with sqlite3.connect(...)\<close> block, and the parameter errors arise before the
  statement runs.
\<close>

datatype request =
  CreateReview pyval string
| GetReviews "ustring option"
| DeleteReview int

fun step :: "db \<Rightarrow> request \<Rightarrow> db" where
  "step st (CreateReview text created_at) =
     (case create_review st text created_at of Inl e \<Rightarrow> st | Inr (row, st') \<Rightarrow> st')"
| "step st (GetReviews sentiment) = st"
| "step st (DeleteReview review_id) =
     (case delete_review st review_id of Inl e \<Rightarrow> st | Inr (b, st') \<Rightarrow> st')"

definition run :: "request list \<Rightarrow> db" where
  "run reqs = foldl step init_db reqs"

definition sentiments :: "ustring set" where
  "sentiments = {positive, negative, neutral}"

text \<open>
  The rows a filter argument selects: all of them without a filter or with the empty
  string, otherwise those whose sentiment equals it.
\<close>

definition selected :: "ustring option \<Rightarrow> review \<Rightarrow> bool" where
  "selected f r \<longleftrightarrow> f = None \<or> f = Some [] \<or> f = Some (r_sentiment r)"

subsection \<open>Sample inputs\<close>

text \<open>
  "khorosho plokho" (a positive and a negative stem, no negated phrase),
  "Mne ochen' ne nravitsya" (the negated phrase around the positive stem "nravitsya"),
  "plokho" (a negative stem only), "Khoroshij tovar", a string that is one lone
  surrogate (U+D800), and an ISO timestamp.
\<close>

definition text_khorosho_plokho :: ustring where
  "text_khorosho_plokho =
     [1093, 1086, 1088, 1086, 1096, 1086, 32, 1087, 1083, 1086, 1093, 1086]"

definition text_mne_ochen_ne_nravitsya :: ustring where
  "text_mne_ochen_ne_nravitsya =
     [1052, 1085, 1077, 32, 1086, 1095, 1077, 1085, 1100, 32, 1085, 1077, 32,
      1085, 1088, 1072, 1074, 1080, 1090, 1089, 1103]"

definition text_plokho :: ustring where
  "text_plokho = [1087, 1083, 1086, 1093, 1086]"

definition text_khoroshij_tovar :: ustring where
  "text_khoroshij_tovar =
     [1061, 1086, 1088, 1086, 1096, 1080, 1081, 32, 1090, 1086, 1074, 1072, 1088]"

definition text_lone_surrogate :: ustring where
  "text_lone_surrogate = [55296]"

definition timestamp :: string where
  "timestamp = ''2026-11-03T12:00:00''"

text \<open>The three rows the sample texts give on a fresh table, and the requests that create them.\<close>

definition row_1 :: review where
  "row_1 = \<lparr>r_id = 1, r_text = text_khoroshij_tovar, r_sentiment = positive,
             r_created_at = timestamp\<rparr>"

definition row_2 :: review where
  "row_2 = \<lparr>r_id = 2, r_text = text_plokho, r_sentiment = negative,
             r_created_at = timestamp\<rparr>"

definition row_3 :: review where
  "row_3 = \<lparr>r_id = 3, r_text = text_khorosho_plokho, r_sentiment = positive,
             r_created_at = timestamp\<rparr>"

definition three_creates :: "request list" where
  "three_creates =
     [CreateReview (PyStr text_khoroshij_tovar) timestamp,
      CreateReview (PyStr text_plokho) timestamp,
      CreateReview (PyStr text_khorosho_plokho) timestamp]"

section \<open>Facts about the string builtins\<close>

lemma strip_Nil_iff: "strip s = [] \<longleftrightarrow> (\<forall>c \<in> set s. isspace c)"
proof
  assume blank: "strip s = []"
  show "\<forall>c \<in> set s. isspace c"
  proof (cases "dropWhile isspace s")
    case Nil
    then show ?thesis by (simp add: dropWhile_eq_Nil_conv)
  next
    case (Cons x xs)
    then have "\<not> isspace x" using hd_dropWhile [of isspace s] by simp
    moreover have "\<forall>c \<in> set (x # xs). isspace c"
      using blank Cons by (simp add: strip_def dropWhile_eq_Nil_conv)
    ultimately show ?thesis by simp
  qed
next
  assume "\<forall>c \<in> set s. isspace c"
  then show "strip s = []" by (auto simp: strip_def dest: set_dropWhileD)
qed

lemma isspace_lower_cp: "isspace c \<Longrightarrow> lower_cp c = c"
  by (auto simp: isspace_def lower_cp_def)

lemma str_in_sublist: "str_in w s \<longleftrightarrow> sublist w s"
  by (induction s) (auto simp: sublist_Cons_right)

lemma str_in_set: "str_in w s \<Longrightarrow> set w \<subseteq> set s"
  by (simp add: str_in_sublist set_mono_sublist)

lemma any_in_iff: "any_in ws s \<longleftrightarrow> (\<exists>w \<in> set ws. str_in w s)"
  by (simp add: any_in_def list_ex_iff)

text \<open>Every word of the three tables starts with a letter, so a blank text holds none.\<close>

lemma lexicon_letter:
  "w \<in> set (negative_phrases @ POSITIVE_WORDS @ NEGATIVE_WORDS) \<Longrightarrow> w \<noteq> [] \<and> \<not> isspace (hd w)"
  unfolding negative_phrases_def POSITIVE_WORDS_def NEGATIVE_WORDS_def
  by (auto simp: isspace_def)

lemma blank_no_word:
  assumes "strip s = []" and "w \<in> set (negative_phrases @ POSITIVE_WORDS @ NEGATIVE_WORDS)"
  shows "\<not> str_in w (lower s)"
proof
  assume "str_in w (lower s)"
  then have "set w \<subseteq> set (lower s)" by (rule str_in_set)
  moreover have "hd w \<in> set w" using lexicon_letter [OF assms(2)] by simp
  ultimately have "hd w \<in> lower_cp ` set s" by (auto simp: lower_def)
  then obtain c where c: "c \<in> set s" "hd w = lower_cp c" by auto
  have "isspace c" using assms(1) c(1) by (simp add: strip_Nil_iff)
  then have "isspace (hd w)" using c(2) by (simp add: isspace_lower_cp)
  then show False using lexicon_letter [OF assms(2)] by simp
qed

lemma blank_no_table:
  assumes "strip s = []"
  shows "\<not> any_in negative_phrases (lower s)" and "\<not> any_in POSITIVE_WORDS (lower s)"
    and "\<not> any_in NEGATIVE_WORDS (lower s)"
  using blank_no_word [OF assms] by (auto simp: any_in_iff)

lemma labels_distinct:
  "positive \<noteq> negative" "positive \<noteq> neutral" "negative \<noteq> neutral"
  "positive \<noteq> []" "negative \<noteq> []" "neutral \<noteq> []"
  by (simp_all add: positive_def negative_def neutral_def ustr_def)

lemma analyze_PyStr_sentiments: "\<exists>s \<in> sentiments. analyze (PyStr t) = Inr s"
  by (simp add: analyze_def sentiments_def Let_def)

section \<open>The classifier\<close>

text \<open>
  C1. For every non-empty string, \<open>analyze\<close> applies a fixed priority: when the lowercased
  text contains one of the negated phrases the result is \<open>negative\<close>; otherwise, when it
  contains a positive stem, the result is \<open>positive\<close>, whether or not negative stems are
  present too.
\<close>

theorem analyze_priority:
  assumes "t \<noteq> []"
  shows "(any_in negative_phrases (lower t) \<longrightarrow> analyze (PyStr t) = Inr negative) \<and>
         (\<not> any_in negative_phrases (lower t) \<and> any_in POSITIVE_WORDS (lower t)
            \<longrightarrow> analyze (PyStr t) = Inr positive)"
proof (cases "strip t = []")
  case True
  then show ?thesis using blank_no_table [of t] by simp
next
  case False
  then show ?thesis by (simp add: analyze_def Let_def)
qed

theorem analyze_priority_witness:
  "text_mne_ochen_ne_nravitsya \<noteq> [] \<and>
   any_in negative_phrases (lower text_mne_ochen_ne_nravitsya) \<and>
   any_in POSITIVE_WORDS (lower text_mne_ochen_ne_nravitsya) \<and>
   analyze (PyStr text_mne_ochen_ne_nravitsya) = Inr negative \<and>
   text_khorosho_plokho \<noteq> [] \<and>
   \<not> any_in negative_phrases (lower text_khorosho_plokho) \<and>
   any_in POSITIVE_WORDS (lower text_khorosho_plokho) \<and>
   any_in NEGATIVE_WORDS (lower text_khorosho_plokho) \<and>
   analyze (PyStr text_khorosho_plokho) = Inr positive"
proof -
  have n1: "text_mne_ochen_ne_nravitsya \<noteq> []"
    by (simp add: text_mne_ochen_ne_nravitsya_def)
  have p1: "any_in negative_phrases (lower text_mne_ochen_ne_nravitsya)"
    by (simp add: any_in_def negative_phrases_def text_mne_ochen_ne_nravitsya_def
        lower_def lower_cp_def)
  have q1: "any_in POSITIVE_WORDS (lower text_mne_ochen_ne_nravitsya)"
    by (simp add: any_in_def POSITIVE_WORDS_def text_mne_ochen_ne_nravitsya_def
        lower_def lower_cp_def)
  have n2: "text_khorosho_plokho \<noteq> []"
    by (simp add: text_khorosho_plokho_def)
  have p2: "\<not> any_in negative_phrases (lower text_khorosho_plokho)"
    by (simp add: any_in_def negative_phrases_def text_khorosho_plokho_def
        lower_def lower_cp_def)
  have q2: "any_in POSITIVE_WORDS (lower text_khorosho_plokho)"
    by (simp add: any_in_def POSITIVE_WORDS_def text_khorosho_plokho_def
        lower_def lower_cp_def)
  have r2: "any_in NEGATIVE_WORDS (lower text_khorosho_plokho)"
    by (simp add: any_in_def NEGATIVE_WORDS_def text_khorosho_plokho_def
        lower_def lower_cp_def)
  have "analyze (PyStr text_mne_ochen_ne_nravitsya) = Inr negative"
    using analyze_priority [OF n1] p1 by blast
  moreover have "analyze (PyStr text_khorosho_plokho) = Inr positive"
    using analyze_priority [OF n2] p2 q2 by blast
  ultimately show ?thesis using n1 p1 q1 n2 p2 q2 r2 by blast
qed

text \<open>
  C3, as stated: every text that contains a negative stem and no negated phrase is
  classified \<open>negative\<close>. The text "khorosho plokho" contains the negative stem "plokh"
  and no negated phrase, and is classified \<open>positive\<close>, since the positive table is
  consulted first.
\<close>

theorem negative_stem_counterexample:
  "any_in NEGATIVE_WORDS (lower text_khorosho_plokho) \<and>
   \<not> any_in negative_phrases (lower text_khorosho_plokho) \<and>
   analyze (PyStr text_khorosho_plokho) = Inr positive \<and>
   analyze (PyStr text_khorosho_plokho) \<noteq> Inr negative"
proof -
  have p: "\<not> any_in negative_phrases (lower text_khorosho_plokho)"
    by (simp add: any_in_def negative_phrases_def text_khorosho_plokho_def
        lower_def lower_cp_def)
  have q: "any_in POSITIVE_WORDS (lower text_khorosho_plokho)"
    by (simp add: any_in_def POSITIVE_WORDS_def text_khorosho_plokho_def
        lower_def lower_cp_def)
  have r: "any_in NEGATIVE_WORDS (lower text_khorosho_plokho)"
    by (simp add: any_in_def NEGATIVE_WORDS_def text_khorosho_plokho_def
        lower_def lower_cp_def)
  have s: "strip text_khorosho_plokho \<noteq> []"
    by (simp add: strip_Nil_iff text_khorosho_plokho_def isspace_def)
  have "analyze (PyStr text_khorosho_plokho) = Inr positive"
    using p q s by (simp add: analyze_def Let_def)
  then show ?thesis using p r labels_distinct(1) by simp
qed

text \<open>
  C3, amended: every text whose lowercased form contains a negative stem, no negated
  phrase and no positive stem is classified \<open>negative\<close>.
\<close>

theorem analyze_negative_stem:
  assumes "any_in NEGATIVE_WORDS (lower t)"
    and "\<not> any_in negative_phrases (lower t)"
    and "\<not> any_in POSITIVE_WORDS (lower t)"
  shows "analyze (PyStr t) = Inr negative"
proof (cases "strip t = []")
  case True
  then show ?thesis using blank_no_table(3) [of t] assms(1) by simp
next
  case False
  then show ?thesis using assms by (simp add: analyze_def Let_def)
qed

theorem analyze_negative_stem_witness:
  "any_in NEGATIVE_WORDS (lower text_plokho) \<and>
   \<not> any_in negative_phrases (lower text_plokho) \<and>
   \<not> any_in POSITIVE_WORDS (lower text_plokho) \<and>
   analyze (PyStr text_plokho) = Inr negative"
proof -
  have r: "any_in NEGATIVE_WORDS (lower text_plokho)"
    by (simp add: any_in_def NEGATIVE_WORDS_def text_plokho_def lower_def lower_cp_def)
  have p: "\<not> any_in negative_phrases (lower text_plokho)"
    by (simp add: any_in_def negative_phrases_def text_plokho_def lower_def lower_cp_def)
  have q: "\<not> any_in POSITIVE_WORDS (lower text_plokho)"
    by (simp add: any_in_def POSITIVE_WORDS_def text_plokho_def lower_def lower_cp_def)
  show ?thesis using analyze_negative_stem [OF r p q] r p q by simp
qed


section \<open>Facts about the repository and the service\<close>

lemma max_rowid_ge: "r \<in> set rs \<Longrightarrow> r_id r \<le> max_rowid rs"
  by (induction rs) (auto simp: max_rowid_def)

lemma max_rowid_nonneg: "0 \<le> max_rowid rs"
  by (induction rs) (auto simp: max_rowid_def)

lemma sentiments_encodable: "s \<in> sentiments \<Longrightarrow> encodable s \<and> s \<noteq> []"
  by (auto simp: sentiments_def positive_def negative_def neutral_def ustr_def encodable_def)

text \<open>What a successful \<open>create\<close> has done, and when \<open>create\<close> succeeds.\<close>

lemma create_InrD:
  assumes "create st t s c = Inr (row, st')"
  shows "encodable t" and "reviews st' = reviews st @ [row]"
    and "r_text row = t" and "r_sentiment row = s" and "r_created_at row = c"
    and "\<forall>r \<in> set (reviews st). r_id r < r_id row" and "0 < r_id row"
proof -
  have enc: "encodable t \<and> encodable s"
    using assms by (auto simp: create_def split: if_splits)
  then have row: "row = \<lparr>r_id = max (sqlite_sequence st) (max_rowid (reviews st)) + 1,
      r_text = t, r_sentiment = s, r_created_at = c\<rparr>"
    and st': "reviews st' = reviews st @ [row]"
    using assms by (auto simp: create_def Let_def)
  show "encodable t" using enc by simp
  show "reviews st' = reviews st @ [row]" by (rule st')
  show "r_text row = t" "r_sentiment row = s" "r_created_at row = c"
    by (simp_all add: row)
  show "\<forall>r \<in> set (reviews st). r_id r < r_id row"
  proof
    fix r
    assume "r \<in> set (reviews st)"
    then have "r_id r \<le> max_rowid (reviews st)" by (rule max_rowid_ge)
    then show "r_id r < r_id row" by (simp add: row)
  qed
  show "0 < r_id row" using max_rowid_nonneg [of "reviews st"] by (simp add: row)
qed



text \<open>The same for \<open>create_review\<close>.\<close>

lemma create_review_Inr:
  assumes "create_review st v c = Inr (row, st')"
  shows "\<exists>t s. v = PyStr t \<and> strip t \<noteq> [] \<and> analyze v = Inr s \<and> s \<in> sentiments \<and>
           create st t s c = Inr (row, st')"
proof -
  obtain t where t: "v = PyStr t" "strip t \<noteq> []"
    using assms by (auto simp: create_review_def split: pyval.splits if_splits)
  obtain s where s: "s \<in> sentiments" "analyze (PyStr t) = Inr s"
    using analyze_PyStr_sentiments [of t] by blast
  have "create st t s c = Inr (row, st')"
    using assms t s(2) by (simp add: create_review_def)
  then show ?thesis using t s by blast
qed




lemma run_snoc: "run (reqs @ [q]) = step (run reqs) q"
  by (simp add: run_def)

lemma run_Nil: "run [] = init_db"
  by (simp add: run_def)

lemma delete_Inr:
  assumes "int64 i"
  shows "delete st i = Inr (i \<in> r_id ` set (reviews st),
           st\<lparr>reviews := filter (\<lambda>r. r_id r \<noteq> i) (reviews st)\<rparr>)"
  using assms by (auto simp: delete_def Let_def filter_empty_conv)

lemma delete_Inl: "\<not> int64 i \<Longrightarrow> delete st i = Inl OverflowError"
  by (simp add: delete_def)

text \<open>A service call leaves the table alone, appends one valid row, or removes the rows of one id.\<close>

lemma step_cases:
  "step st q = st \<or>
   (\<exists>t s c row. strip t \<noteq> [] \<and> s \<in> sentiments \<and> create st t s c = Inr (row, step st q)) \<or>
   (\<exists>i. reviews (step st q) = filter (\<lambda>r. r_id r \<noteq> i) (reviews st))"
proof (cases q)
  case (CreateReview v c)
  show ?thesis
  proof (cases "create_review st v c")
    case (Inl e)
    then show ?thesis using CreateReview by simp
  next
    case (Inr p)
    obtain row st' where p: "p = (row, st')" by (cases p)
    obtain t s where "strip t \<noteq> []" "s \<in> sentiments" "create st t s c = Inr (row, st')"
      using create_review_Inr [of st v c row st'] Inr p by auto
    moreover have "step st q = st'" using CreateReview Inr p by simp
    ultimately show ?thesis by blast
  qed
next
  case (GetReviews f)
  then show ?thesis by simp
next
  case (DeleteReview i)
  show ?thesis
  proof (cases "int64 i")
    case True
    then have "reviews (step st q) = filter (\<lambda>r. r_id r \<noteq> i) (reviews st)"
      using DeleteReview by (simp add: delete_review_def delete_Inr)
    then show ?thesis by blast
  next
    case False
    then show ?thesis using DeleteReview by (simp add: delete_review_def delete_Inl)
  qed
qed

lemma step_sorted:
  assumes "sorted_wrt (<) (map r_id (reviews st))"
  shows "sorted_wrt (<) (map r_id (reviews (step st q)))"
proof -
  consider "step st q = st"
    | t s c row where "create st t s c = Inr (row, step st q)"
    | i where "reviews (step st q) = filter (\<lambda>r. r_id r \<noteq> i) (reviews st)"
    using step_cases [of st q] by blast
  then show ?thesis
  proof cases
    case 1
    then show ?thesis using assms by simp
  next
    case 2
    have a: "reviews (step st q) = reviews st @ [row]" by (rule create_InrD(2) [OF 2])
    have b: "\<forall>r \<in> set (reviews st). r_id r < r_id row" by (rule create_InrD(6) [OF 2])
    show ?thesis using assms b by (simp add: a sorted_wrt_append)
  next
    case 3
    then show ?thesis using assms by (simp add: sorted_wrt_map sorted_wrt_filter)
  qed
qed

lemma run_sorted: "sorted_wrt (<) (map r_id (reviews (run reqs)))"
proof (induction reqs rule: rev_induct)
  case Nil
  show ?case by (simp add: run_Nil init_db_def)
next
  case (snoc q reqs)
  then show ?case by (simp add: run_snoc step_sorted)
qed

lemma step_valid:
  assumes "\<forall>r \<in> set (reviews st).
             strip (r_text r) \<noteq> [] \<and> r_sentiment r \<in> sentiments \<and> 0 < r_id r"
  shows "\<forall>r \<in> set (reviews (step st q)).
             strip (r_text r) \<noteq> [] \<and> r_sentiment r \<in> sentiments \<and> 0 < r_id r"
proof -
  consider "step st q = st"
    | t s c row where "strip t \<noteq> []" "s \<in> sentiments" "create st t s c = Inr (row, step st q)"
    | i where "reviews (step st q) = filter (\<lambda>r. r_id r \<noteq> i) (reviews st)"
    using step_cases [of st q] by blast
  then show ?thesis
  proof cases
    case 1
    then show ?thesis using assms by simp
  next
    case 2
    have a: "reviews (step st q) = reviews st @ [row]" by (rule create_InrD(2) [OF 2(3)])
    have b: "strip (r_text row) \<noteq> [] \<and> r_sentiment row \<in> sentiments \<and> 0 < r_id row"
      using 2(1,2) create_InrD(3,4,7) [OF 2(3)] by simp
    show ?thesis using assms b by (simp add: a)
  next
    case 3
    then show ?thesis using assms by simp
  qed
qed

lemma run_valid:
  "\<forall>r \<in> set (reviews (run reqs)).
     strip (r_text r) \<noteq> [] \<and> r_sentiment r \<in> sentiments \<and> 0 < r_id r"
proof (induction reqs rule: rev_induct)
  case Nil
  show ?case by (simp add: run_Nil init_db_def)
next
  case (snoc q reqs)
  show ?case unfolding run_snoc by (rule step_valid [OF snoc.IH])
qed

lemma step_keeps_rows:
  assumes "r \<in> set (reviews (step st q))"
  shows "r \<in> set (reviews st) \<or> r_id r \<notin> r_id ` set (reviews st)"
proof -
  consider "step st q = st"
    | t s c row where "create st t s c = Inr (row, step st q)"
    | i where "reviews (step st q) = filter (\<lambda>r. r_id r \<noteq> i) (reviews st)"
    using step_cases [of st q] by blast
  then show ?thesis
  proof cases
    case 1
    then show ?thesis using assms by simp
  next
    case 2
    show ?thesis
    proof (cases "r \<in> set (reviews st)")
      case True
      then show ?thesis by simp
    next
      case False
      have "reviews (step st q) = reviews st @ [row]" by (rule create_InrD(2) [OF 2])
      then have "r = row" using assms False by simp
      then have "\<forall>x \<in> set (reviews st). r_id x < r_id r"
        using create_InrD(6) [OF 2] by simp
      then show ?thesis by force
    qed
  next
    case 3
    then show ?thesis using assms by simp
  qed
qed

lemma find_all_selected:
  assumes "\<forall>s. f = Some s \<longrightarrow> encodable s"
  shows "find_all st f = Inr (filter (selected f) (reviews st))"
proof (cases f)
  case None
  then show ?thesis by (simp add: find_all_def selected_def)
next
  case (Some s)
  then have "encodable s" using assms by simp
  then show ?thesis using Some by (auto simp: find_all_def selected_def intro: filter_cong)
qed

text \<open>Evaluating the sample inputs.\<close>

lemma strip_samples:
  "strip text_khoroshij_tovar \<noteq> []" "strip text_plokho \<noteq> []" "strip text_khorosho_plokho \<noteq> []"
  "strip text_lone_surrogate \<noteq> []"
  by (simp_all add: strip_Nil_iff text_khoroshij_tovar_def text_plokho_def
      text_khorosho_plokho_def text_lone_surrogate_def isspace_def)

lemma encodable_samples:
  "encodable text_khoroshij_tovar" "encodable text_plokho" "encodable text_khorosho_plokho"
  "\<not> encodable text_lone_surrogate"
  "encodable positive" "encodable negative" "encodable neutral"
  by (simp_all add: encodable_def text_khoroshij_tovar_def text_plokho_def
      text_khorosho_plokho_def text_lone_surrogate_def positive_def negative_def neutral_def
      ustr_def)

lemma analyze_khoroshij_tovar: "analyze (PyStr text_khoroshij_tovar) = Inr positive"
proof -
  have "\<not> any_in negative_phrases (lower text_khoroshij_tovar)"
    by (simp add: any_in_def negative_phrases_def text_khoroshij_tovar_def lower_def lower_cp_def)
  moreover have "any_in POSITIVE_WORDS (lower text_khoroshij_tovar)"
    by (simp add: any_in_def POSITIVE_WORDS_def text_khoroshij_tovar_def lower_def lower_cp_def)
  ultimately show ?thesis using strip_samples(1) by (simp add: analyze_def Let_def)
qed

lemma analyze_plokho: "analyze (PyStr text_plokho) = Inr negative"
proof -
  have "\<not> any_in negative_phrases (lower text_plokho)"
    by (simp add: any_in_def negative_phrases_def text_plokho_def lower_def lower_cp_def)
  moreover have "\<not> any_in POSITIVE_WORDS (lower text_plokho)"
    by (simp add: any_in_def POSITIVE_WORDS_def text_plokho_def lower_def lower_cp_def)
  moreover have "any_in NEGATIVE_WORDS (lower text_plokho)"
    by (simp add: any_in_def NEGATIVE_WORDS_def text_plokho_def lower_def lower_cp_def)
  ultimately show ?thesis using strip_samples(2) by (simp add: analyze_def Let_def)
qed

lemma analyze_khorosho_plokho: "analyze (PyStr text_khorosho_plokho) = Inr positive"
proof -
  have "\<not> any_in negative_phrases (lower text_khorosho_plokho)"
    by (simp add: any_in_def negative_phrases_def text_khorosho_plokho_def lower_def lower_cp_def)
  moreover have "any_in POSITIVE_WORDS (lower text_khorosho_plokho)"
    by (simp add: any_in_def POSITIVE_WORDS_def text_khorosho_plokho_def lower_def lower_cp_def)
  ultimately show ?thesis using strip_samples(3) by (simp add: analyze_def Let_def)
qed

lemma create_review_khoroshij_tovar:
  "create_review init_db (PyStr text_khoroshij_tovar) timestamp =
     Inr (row_1, \<lparr>reviews = [row_1], sqlite_sequence = 1\<rparr>)"
  using strip_samples(1) encodable_samples(1,5)
  by (simp add: create_review_def analyze_khoroshij_tovar create_def init_db_def max_rowid_def
      Let_def row_1_def)

lemma run_one_create:
  "run [CreateReview (PyStr text_khoroshij_tovar) timestamp] =
     \<lparr>reviews = [row_1], sqlite_sequence = 1\<rparr>"
  by (simp add: run_def create_review_khoroshij_tovar)

lemma run_three_creates:
  "run three_creates = \<lparr>reviews = [row_1, row_2, row_3], sqlite_sequence = 3\<rparr>"
proof -
  have 1: "step init_db (CreateReview (PyStr text_khoroshij_tovar) timestamp) =
          \<lparr>reviews = [row_1], sqlite_sequence = 1\<rparr>"
    by (simp add: create_review_khoroshij_tovar)
  have 2: "step \<lparr>reviews = [row_1], sqlite_sequence = 1\<rparr>
             (CreateReview (PyStr text_plokho) timestamp) =
          \<lparr>reviews = [row_1, row_2], sqlite_sequence = 2\<rparr>"
    using strip_samples(2) encodable_samples(2,6)
    by (simp add: create_review_def analyze_plokho create_def max_rowid_def Let_def
        row_1_def row_2_def)
  have 3: "step \<lparr>reviews = [row_1, row_2], sqlite_sequence = 2\<rparr>
             (CreateReview (PyStr text_khorosho_plokho) timestamp) =
          \<lparr>reviews = [row_1, row_2, row_3], sqlite_sequence = 3\<rparr>"
    using strip_samples(3) encodable_samples(3,5)
    by (simp add: create_review_def analyze_khorosho_plokho create_def max_rowid_def Let_def
        row_1_def row_2_def row_3_def)
  show ?thesis by (simp only: run_def three_creates_def foldl.simps 1 2 3)
qed

lemma rows_fields:
  "r_id row_1 = 1" "r_id row_2 = 2" "r_id row_3 = 3"
  "r_sentiment row_1 = positive" "r_sentiment row_2 = negative" "r_sentiment row_3 = positive"
  "r_text row_1 = text_khoroshij_tovar" "r_text row_2 = text_plokho"
  "r_text row_3 = text_khorosho_plokho"
  by (simp_all add: row_1_def row_2_def row_3_def)




section \<open>Creating and reading reviews\<close>

text \<open>
  C2. Round trip: when \<open>create_review\<close> succeeds on a value, that value is a string, and
  \<open>get_reviews\<close> without a filter then returns the table with the new record at its
  end, whose text is that string exactly and whose sentiment is what \<open>analyze\<close> yields
  for it.
\<close>

theorem create_then_get_roundtrip:
  assumes "create_review st v c = Inr (row, st')"
  shows "get_reviews st' None = Inr (reviews st @ [row]) \<and>
         (\<exists>rs. get_reviews st' None = Inr rs \<and> row \<in> set rs) \<and>
         v = PyStr (r_text row) \<and> analyze v = Inr (r_sentiment row)"
proof -
  obtain t s where ts: "v = PyStr t" "analyze v = Inr s" "create st t s c = Inr (row, st')"
    using create_review_Inr [OF assms] by blast
  have "get_reviews st' None = Inr (reviews st @ [row])"
    using create_InrD(2) [OF ts(3)] by (simp add: get_reviews_def find_all_def)
  moreover have "v = PyStr (r_text row)" "analyze v = Inr (r_sentiment row)"
    using ts(1,2) create_InrD(3,4) [OF ts(3)] by simp_all
  ultimately show ?thesis by simp
qed

theorem create_then_get_roundtrip_witness:
  "create_review init_db (PyStr text_khoroshij_tovar) timestamp =
     Inr (row_1, \<lparr>reviews = [row_1], sqlite_sequence = 1\<rparr>) \<and>
   get_reviews \<lparr>reviews = [row_1], sqlite_sequence = 1\<rparr> None = Inr [row_1] \<and>
   r_id row_1 = 1 \<and> r_text row_1 = text_khoroshij_tovar \<and> r_sentiment row_1 = positive \<and>
   analyze (PyStr text_khoroshij_tovar) = Inr positive"
proof -
  have "get_reviews \<lparr>reviews = [row_1], sqlite_sequence = 1\<rparr> None
          = Inr (reviews init_db @ [row_1]) \<and>
        analyze (PyStr text_khoroshij_tovar) = Inr (r_sentiment row_1)"
    using create_then_get_roundtrip [OF create_review_khoroshij_tovar] by blast
  then show ?thesis
    using create_review_khoroshij_tovar by (simp add: rows_fields init_db_def)
qed




text \<open>
  C5, as stated: a filter string outside the three labels is passed through and matches
  nothing. The empty string is outside the three labels, and with it \<open>get_reviews\<close>
  returns the stored record; the one-character string U+D800 is outside them too, and
  with it \<open>get_reviews\<close> raises \<open>UnicodeEncodeError\<close>.
\<close>

theorem get_reviews_unrecognized_counterexample:
  "[] \<noteq> positive \<and> [] \<noteq> negative \<and> [] \<noteq> neutral \<and>
   get_reviews (run [CreateReview (PyStr text_khoroshij_tovar) timestamp]) (Some []) =
     Inr [row_1] \<and>
   text_lone_surrogate \<noteq> positive \<and> text_lone_surrogate \<noteq> negative \<and>
   text_lone_surrogate \<noteq> neutral \<and>
   get_reviews (run [CreateReview (PyStr text_khoroshij_tovar) timestamp])
     (Some text_lone_surrogate) = Inl UnicodeEncodeError"
proof -
  have "text_lone_surrogate \<noteq> positive \<and> text_lone_surrogate \<noteq> negative \<and>
        text_lone_surrogate \<noteq> neutral"
    using encodable_samples(4-7) by metis
  moreover have "text_lone_surrogate \<noteq> []" by (simp add: text_lone_surrogate_def)
  ultimately show ?thesis
    using labels_distinct(4-6) encodable_samples(4)
    by (simp add: run_one_create get_reviews_def find_all_def)
qed

text \<open>
  C5, amended: for each of the three labels \<open>s\<close>, \<open>get_reviews\<close> with filter \<open>s\<close> returns
  the stored records whose sentiment is \<open>s\<close> and only those, whatever the table holds;
  and after any sequence of service calls on a fresh table, a filter string that is not
  empty, holds no lone surrogate and is none of the three labels yields the empty list.
\<close>

theorem get_reviews_filter:
  "(s \<in> sentiments \<longrightarrow>
      get_reviews st (Some s) = Inr (filter (\<lambda>r. r_sentiment r = s) (reviews st)) \<and>
      (\<forall>rs. get_reviews st (Some s) = Inr rs \<longrightarrow>
         (\<forall>r \<in> set rs. r_sentiment r = s \<and> r \<in> set (reviews st)))) \<and>
   (s \<notin> sentiments \<and> s \<noteq> [] \<and> encodable s \<longrightarrow> get_reviews (run reqs) (Some s) = Inr [])"
proof (intro conjI impI)
  assume "s \<in> sentiments"
  then show eq: "get_reviews st (Some s) = Inr (filter (\<lambda>r. r_sentiment r = s) (reviews st))"
    using sentiments_encodable [of s] by (simp add: get_reviews_def find_all_def)
  show "\<forall>rs. get_reviews st (Some s) = Inr rs \<longrightarrow>
         (\<forall>r \<in> set rs. r_sentiment r = s \<and> r \<in> set (reviews st))"
    unfolding eq by auto
next
  assume a: "s \<notin> sentiments \<and> s \<noteq> [] \<and> encodable s"
  have "\<forall>r \<in> set (reviews (run reqs)). r_sentiment r \<noteq> s"
  proof
    fix r
    assume "r \<in> set (reviews (run reqs))"
    then have "r_sentiment r \<in> sentiments" using run_valid [of reqs] by blast
    then show "r_sentiment r \<noteq> s" using a by blast
  qed
  then have "filter (\<lambda>r. r_sentiment r = s) (reviews (run reqs)) = []"
    by (simp add: filter_empty_conv)
  then show "get_reviews (run reqs) (Some s) = Inr []"
    using a by (simp add: get_reviews_def find_all_def)
qed

theorem get_reviews_filter_witness:
  "positive \<in> sentiments \<and>
   get_reviews (run three_creates) (Some positive) = Inr [row_1, row_3] \<and>
   r_sentiment row_1 = positive \<and> r_sentiment row_3 = positive \<and>
   negative \<in> sentiments \<and>
   get_reviews (run three_creates) (Some negative) = Inr [row_2] \<and>
   ustr ''good'' \<notin> sentiments \<and> ustr ''good'' \<noteq> [] \<and> encodable (ustr ''good'') \<and>
   get_reviews (run three_creates) (Some (ustr ''good'')) = Inr []"
proof -
  have p: "positive \<in> sentiments" "negative \<in> sentiments" by (simp_all add: sentiments_def)
  have "get_reviews (run three_creates) (Some positive) =
          Inr (filter (\<lambda>r. r_sentiment r = positive) (reviews (run three_creates)))"
    using get_reviews_filter [of positive "run three_creates" "[]"] p(1) by blast
  then have l: "get_reviews (run three_creates) (Some positive) = Inr [row_1, row_3]"
    using labels_distinct(1) by (simp add: run_three_creates rows_fields)
  have "get_reviews (run three_creates) (Some negative) =
          Inr (filter (\<lambda>r. r_sentiment r = negative) (reviews (run three_creates)))"
    using get_reviews_filter [of negative "run three_creates" "[]"] p(2) by blast
  then have m: "get_reviews (run three_creates) (Some negative) = Inr [row_2]"
    using labels_distinct(1) by (simp add: run_three_creates rows_fields)
  have g: "ustr ''good'' \<notin> sentiments \<and> ustr ''good'' \<noteq> [] \<and> encodable (ustr ''good'')"
    by (simp add: sentiments_def positive_def negative_def neutral_def ustr_def encodable_def)
  then have "get_reviews (run three_creates) (Some (ustr ''good'')) = Inr []"
    using get_reviews_filter [of "ustr ''good''" init_db three_creates] by blast
  then show ?thesis using p l m g by (simp add: rows_fields)
qed

text \<open>
  C10. An empty-string filter is no filter: \<open>find_all\<close> and \<open>get_reviews\<close> return every
  stored record, as they do without a filter.
\<close>

theorem find_all_empty_string_filter:
  "find_all st (Some []) = Inr (reviews st) \<and> find_all st (Some []) = find_all st None \<and>
   get_reviews st (Some []) = Inr (reviews st) \<and>
   get_reviews st (Some []) = get_reviews st None"
  by (simp add: get_reviews_def find_all_def)

section \<open>Deleting reviews\<close>




text \<open>
  C7, as stated: for every id that is not a positive integer the service's
  \<open>delete_review\<close> fails with a validation error, and for a positive id it returns the
  repository's boolean. For the ids 0 and -5 it returns \<open>False\<close>; for the positive id
  9223372036854775808 it returns no boolean but raises \<open>OverflowError\<close>.
\<close>

theorem delete_review_nonpositive_counterexample:
  "\<not> (0::int) < 0 \<and> delete_review init_db 0 = Inr (False, init_db) \<and>
   \<not> (0::int) < - 5 \<and> delete_review init_db (- 5) = Inr (False, init_db) \<and>
   (0::int) < 9223372036854775808 \<and>
   delete_review init_db 9223372036854775808 = Inl OverflowError"
  by (simp add: delete_review_def delete_def int64_def init_db_def)

text \<open>
  C7, amended: the service's \<open>delete_review\<close> never fails with a validation error. For
  every integer id, positive or not, it hands the id to the repository unchecked and its
  outcome is the repository's; for an id in the signed 64-bit range that outcome is the
  repository's boolean result, which is \<open>False\<close>, with the table unchanged, for every id
  that is not positive on a table built by service calls.
\<close>

theorem delete_review_delegates:
  "delete_review st i = delete st i \<and>
   (\<forall>msg. delete_review st i \<noteq> Inl (ValueError msg)) \<and>
   (int64 i \<longrightarrow> delete_review st i = Inr (i \<in> r_id ` set (reviews st),
      st\<lparr>reviews := filter (\<lambda>r. r_id r \<noteq> i) (reviews st)\<rparr>)) \<and>
   (int64 i \<and> i \<le> 0 \<longrightarrow> delete_review (run reqs) i = Inr (False, run reqs))"
proof (intro conjI allI impI)
  show "delete_review st i = delete st i" by (simp add: delete_review_def)
next
  fix msg
  show "delete_review st i \<noteq> Inl (ValueError msg)"
    by (cases "int64 i") (simp_all add: delete_review_def delete_Inr delete_Inl)
next
  assume "int64 i"
  then show "delete_review st i = Inr (i \<in> r_id ` set (reviews st),
      st\<lparr>reviews := filter (\<lambda>r. r_id r \<noteq> i) (reviews st)\<rparr>)"
    by (simp add: delete_review_def delete_Inr)
next
  assume a: "int64 i \<and> i \<le> 0"
  have pos: "\<forall>r \<in> set (reviews (run reqs)). 0 < r_id r"
    using run_valid [of reqs] by blast
  then have absent: "i \<notin> r_id ` set (reviews (run reqs))" using a by force
  have "\<forall>r \<in> set (reviews (run reqs)). r_id r \<noteq> i" using pos a by force
  then have "filter (\<lambda>r. r_id r \<noteq> i) (reviews (run reqs)) = reviews (run reqs)"
    by (simp add: filter_id_conv)
  then have "(run reqs)\<lparr>reviews := filter (\<lambda>r. r_id r \<noteq> i) (reviews (run reqs))\<rparr> = run reqs"
    by simp
  then show "delete_review (run reqs) i = Inr (False, run reqs)"
    using a absent by (simp add: delete_review_def delete_Inr)
qed

theorem delete_review_delegates_witness:
  "int64 0 \<and> delete_review (run three_creates) 0 = Inr (False, run three_creates) \<and>
   int64 (- 5) \<and> delete_review (run three_creates) (- 5) = Inr (False, run three_creates) \<and>
   int64 2 \<and>
   delete_review (run three_creates) 2 =
     Inr (True, \<lparr>reviews = [row_1, row_3], sqlite_sequence = 3\<rparr>)"
proof -
  have i: "int64 0" "int64 (- 5)" "int64 2" by (simp_all add: int64_def)
  have 1: "delete_review (run three_creates) 0 = Inr (False, run three_creates)"
    using delete_review_delegates [of init_db 0 three_creates] i(1) by blast
  have 2: "delete_review (run three_creates) (- 5) = Inr (False, run three_creates)"
    using delete_review_delegates [of init_db "- 5" three_creates] i(2) by simp
  have "delete_review (run three_creates) 2 =
          Inr (2 \<in> r_id ` set (reviews (run three_creates)),
               (run three_creates)\<lparr>reviews :=
                  filter (\<lambda>r. r_id r \<noteq> 2) (reviews (run three_creates))\<rparr>)"
    using delete_review_delegates [of "run three_creates" 2 "[]"] i(3) by blast
  then have 3: "delete_review (run three_creates) 2 =
      Inr (True, \<lparr>reviews = [row_1, row_3], sqlite_sequence = 3\<rparr>)"
    by (simp add: run_three_creates rows_fields)
  show ?thesis using i 1 2 3 by simp
qed

section \<open>Order and invariants\<close>

text \<open>
  C8. After any sequence of service calls on a fresh table, \<open>find_all\<close> (and so
  \<open>get_reviews\<close>), called without a filter or with a filter it can encode, returns
  exactly the stored records the filter selects, in the order of the table, which is
  the order of insertion and of strictly ascending id; when no record is selected the
  result is the empty list, not an error.
\<close>

theorem find_all_ordered:
  assumes "\<forall>s. f = Some s \<longrightarrow> encodable s"
  shows "find_all (run reqs) f = Inr (filter (selected f) (reviews (run reqs))) \<and>
         get_reviews (run reqs) f = find_all (run reqs) f \<and>
         sorted_wrt (<) (map r_id (reviews (run reqs))) \<and>
         sorted_wrt (<) (map r_id (filter (selected f) (reviews (run reqs)))) \<and>
         ((\<forall>r \<in> set (reviews (run reqs)). \<not> selected f r) \<longrightarrow> find_all (run reqs) f = Inr [])"
proof (intro conjI impI)
  show eq: "find_all (run reqs) f = Inr (filter (selected f) (reviews (run reqs)))"
    by (rule find_all_selected [OF assms])
  show "get_reviews (run reqs) f = find_all (run reqs) f"
    by (simp add: get_reviews_def)
  show "sorted_wrt (<) (map r_id (reviews (run reqs)))"
    by (rule run_sorted)
  then show "sorted_wrt (<) (map r_id (filter (selected f) (reviews (run reqs))))"
    by (simp add: sorted_wrt_map sorted_wrt_filter)
  assume "\<forall>r \<in> set (reviews (run reqs)). \<not> selected f r"
  then have "filter (selected f) (reviews (run reqs)) = []"
    by (simp add: filter_empty_conv)
  then show "find_all (run reqs) f = Inr []" using eq by simp
qed

theorem find_all_ordered_witness:
  "encodable positive \<and> encodable neutral \<and>
   find_all (run three_creates) None = Inr [row_1, row_2, row_3] \<and>
   find_all (run three_creates) (Some positive) = Inr [row_1, row_3] \<and>
   get_reviews (run three_creates) (Some positive) = Inr [row_1, row_3] \<and>
   map r_id [row_1, row_3] = [1, 3] \<and>
   sorted_wrt (<) (map r_id [row_1, row_3]) \<and>
   find_all (run three_creates) (Some neutral) = Inr []"
proof -
  have e: "\<forall>s. Some positive = Some s \<longrightarrow> encodable s"
    "\<forall>s. Some neutral = Some s \<longrightarrow> encodable s" "\<forall>s. None = Some s \<longrightarrow> encodable s"
    using encodable_samples(5,7) by simp_all
  have sel: "filter (selected (Some positive)) (reviews (run three_creates)) = [row_1, row_3]"
    "filter (selected None) (reviews (run three_creates)) = [row_1, row_2, row_3]"
    "\<forall>r \<in> set (reviews (run three_creates)). \<not> selected (Some neutral) r"
    using labels_distinct by (simp_all add: run_three_creates selected_def rows_fields)
  note P = find_all_ordered [OF e(1), of three_creates]
  note N = find_all_ordered [OF e(2), of three_creates]
  note A = find_all_ordered [OF e(3), of three_creates]
  have 1: "find_all (run three_creates) (Some positive) = Inr [row_1, row_3]"
    using conjunct1 [OF P] sel(1) by simp
  have 2: "get_reviews (run three_creates) (Some positive) = Inr [row_1, row_3]"
    using conjunct1 [OF conjunct2 [OF P]] 1 by simp
  have 3: "sorted_wrt (<) (map r_id [row_1, row_3])"
    using conjunct1 [OF conjunct2 [OF conjunct2 [OF conjunct2 [OF P]]]] sel(1) by simp
  have 4: "find_all (run three_creates) (Some neutral) = Inr []"
    using conjunct2 [OF conjunct2 [OF conjunct2 [OF conjunct2 [OF N]]]] sel(3) by blast
  have 5: "find_all (run three_creates) None = Inr [row_1, row_2, row_3]"
    using conjunct1 [OF A] sel(2) by simp
  show ?thesis using 1 2 3 4 5 encodable_samples(5,7) by (simp add: rows_fields)
qed

text \<open>
  C9. In every state reached from the fresh table by service calls, each stored record
  has a non-empty text (not even blank) and one of the three labels as its sentiment;
  and one more service call changes no stored record: each record of the next state is
  a record of the current state, unchanged, or carries an id the current state does not
  hold.
\<close>

theorem service_invariant:
  "(\<forall>r \<in> set (reviews (run reqs)).
      r_text r \<noteq> [] \<and> strip (r_text r) \<noteq> [] \<and> r_sentiment r \<in> sentiments) \<and>
   (\<forall>r \<in> set (reviews (step (run reqs) q)).
      r \<in> set (reviews (run reqs)) \<or> r_id r \<notin> r_id ` set (reviews (run reqs)))"
proof (intro conjI ballI)
  fix r
  assume "r \<in> set (reviews (run reqs))"
  then have "strip (r_text r) \<noteq> [] \<and> r_sentiment r \<in> sentiments"
    using run_valid [of reqs] by blast
  moreover from this have "r_text r \<noteq> []" by (auto simp: strip_def)
  ultimately show "r_text r \<noteq> []" "strip (r_text r) \<noteq> []" "r_sentiment r \<in> sentiments"
    by simp_all
next
  fix r
  assume "r \<in> set (reviews (step (run reqs) q))"
  then show "r \<in> set (reviews (run reqs)) \<or> r_id r \<notin> r_id ` set (reviews (run reqs))"
    by (rule step_keeps_rows)
qed

theorem service_invariant_witness:
  "reviews (run three_creates) = [row_1, row_2, row_3] \<and>
   r_text row_2 \<noteq> [] \<and> strip (r_text row_2) \<noteq> [] \<and> r_sentiment row_2 \<in> sentiments \<and>
   reviews (step (run three_creates) (DeleteReview 1)) = [row_2, row_3] \<and>
   (row_2 \<in> set (reviews (run three_creates)) \<or>
    r_id row_2 \<notin> r_id ` set (reviews (run three_creates)))"
proof -
  have 0: "reviews (run three_creates) = [row_1, row_2, row_3]"
    by (simp add: run_three_creates)
  then have 1: "row_2 \<in> set (reviews (run three_creates))" by simp
  have 2: "r_text row_2 \<noteq> [] \<and> strip (r_text row_2) \<noteq> [] \<and> r_sentiment row_2 \<in> sentiments"
    using service_invariant [of three_creates "DeleteReview 1"] 1 by blast
  have 3: "reviews (step (run three_creates) (DeleteReview 1)) = [row_2, row_3]"
    by (simp add: run_three_creates delete_review_def delete_def int64_def rows_fields)
  then have "row_2 \<in> set (reviews (step (run three_creates) (DeleteReview 1)))" by simp
  then have 4: "row_2 \<in> set (reviews (run three_creates)) \<or>
      r_id row_2 \<notin> r_id ` set (reviews (run three_creates))"
    using service_invariant [of three_creates "DeleteReview 1"] by blast
  show ?thesis using 0 2 3 4 by blast
qed

end
